theory Spec2Isabelle
  imports
    Main
    "HOL-Library.Char_ord"
    "HOL-Library.List_Lexorder"
    "HOL-Library.Product_Lexorder"
begin

section \<open>Exceptions\<close>

text \<open>
  Every exception a modelled path can raise is a value; a function that may raise returns
  \<open>error + 'a\<close> with \<open>Inl\<close> for the exception. \<open>BadRequest f\<close> stands for the
  early \<open>return Response({f: ...}, status=400)\<close> of a view.
\<close>

datatype error =
    DoesNotExist
  | MultipleObjectsReturned
  | Http404
  | PermissionDenied
  | FieldError
  | AttributeError
  | ConnectionError
  | BadRequest string

section \<open>Data model\<close>

text \<open>
  A \<open>ContentType\<close> row is identified by its \<open>model\<close> name, the only column the
  code reads (\<open>ContentType.objects.get(model='project')\<close>).
\<close>

type_synonym content_type = string

definition ContentType_objects_get :: "string \<Rightarrow> content_type" where
  "ContentType_objects_get model = model"

text \<open>\<open>accounts/models.py\<close>, class \<open>CustomUser\<close>: the primary key and the text columns.\<close>

record custom_user =
  user_id :: nat
  email :: string
  first_name :: string
  last_name :: string

text \<open>
  \<open>ProjectMembership\<close> as the code uses it: \<open>member\<close> and \<open>project\<close> hold the
  primary keys of the user and of the project, \<open>access_level\<close> the rank.
\<close>

record project_membership =
  member :: nat
  project :: nat
  access_level :: nat

record project_row =
  project_id :: nat
  project_owner :: nat

text \<open>
  \<open>Board\<close>: the polymorphic owner is the pair \<open>(owner_id, owner_model)\<close>; the three
  appearance fields are \<open>image\<close> (a file, \<open>None\<close> when absent), \<open>image_url\<close> and
  \<open>color\<close>.
\<close>

record board =
  board_id :: nat
  board_title :: string
  owner_id :: nat
  owner_model :: content_type
  image :: "string option"
  image_url :: string
  color :: string

record list_row =
  list_id :: nat
  list_board :: nat

record item =
  item_id :: nat
  item_title :: string
  item_list :: nat
  item_image :: "string option"
  item_image_url :: string
  item_color :: string
  assigned_to :: "nat set"
  labels :: "nat set"

record label =
  label_id :: nat
  label_board :: nat

text \<open>
  Modelled from the spec: the \<open>Attachment\<close> model of \<open>boards/models.py\<close> is not among
  the sources; the spec lets an attachment inherit its board's policy through its parent
  chain, so the row carries the primary key of its parent item.
\<close>

record attachment =
  attachment_id :: nat
  attachment_item :: nat

record db =
  users :: "custom_user list"
  memberships :: "project_membership list"
  projects :: "project_row list"
  boards :: "board list"
  lists :: "list_row list"
  items :: "item list"
  label_rows :: "label list"
  attachments :: "attachment list"

section \<open>Query helpers of the ORM\<close>

text \<open>
  \<open>QuerySet.get\<close>: exactly one matching row, else \<open>DoesNotExist\<close> or
  \<open>MultipleObjectsReturned\<close>.
\<close>

definition objects_get :: "('a \<Rightarrow> bool) \<Rightarrow> 'a list \<Rightarrow> error + 'a" where
  "objects_get p rows =
     (case filter p rows of
        [] \<Rightarrow> Inl DoesNotExist
      | [x] \<Rightarrow> Inr x
      | _ # _ # _ \<Rightarrow> Inl MultipleObjectsReturned)"

text \<open>\<open>get_object_or_404\<close> turns \<open>DoesNotExist\<close> into \<open>Http404\<close> and nothing else.\<close>

definition get_object_or_404 :: "('a \<Rightarrow> bool) \<Rightarrow> 'a list \<Rightarrow> error + 'a" where
  "get_object_or_404 p rows =
     (case objects_get p rows of
        Inl DoesNotExist \<Rightarrow> Inl Http404
      | Inl e \<Rightarrow> Inl e
      | Inr x \<Rightarrow> Inr x)"

section \<open>Access Evaluator: \<open>CustomUser.can_view_board\<close>\<close>

text \<open>
  \<open>accounts/models.py\<close>, lines 35-47. A project-owned board asks for the membership
  row of \<open>self\<close> in the owning project; every other board compares \<open>owner_id\<close>
  with \<open>self.id\<close>.
\<close>

definition can_view_board :: "db \<Rightarrow> custom_user \<Rightarrow> board \<Rightarrow> error + bool" where
  "can_view_board d self b =
     (if owner_model b = ContentType_objects_get ''project'' then
        (case objects_get (\<lambda>pm. member pm = user_id self \<and> project pm = owner_id b)
                (memberships d) of
           Inl DoesNotExist \<Rightarrow> Inr False
         | Inl e \<Rightarrow> Inl e
         | Inr pmem \<Rightarrow> Inr True)
      else if owner_id b \<noteq> user_id self then Inr False
      else Inr True)"

text \<open>
  The data model makes \<open>(project, member)\<close> unique among the membership rows.
\<close>

definition unique_memberships :: "db \<Rightarrow> bool" where
  "unique_memberships d = distinct (map (\<lambda>pm. (project pm, member pm)) (memberships d))"

definition is_member :: "db \<Rightarrow> custom_user \<Rightarrow> nat \<Rightarrow> bool" where
  "is_member d u p = list_ex (\<lambda>pm. member pm = user_id u \<and> project pm = p) (memberships d)"

section \<open>The ranked-association store (Redis sorted sets)\<close>

text \<open>
  The store is the external Redis server. A sorted set is a list of (member, score) pairs
  with one pair per member; a key that was never written holds the empty set. Members are
  board ids; Redis keeps them as their decimal text and breaks ties between equal scores by
  that text, so the sort key of an entry is the score followed by the decimal digits.
\<close>

type_synonym zset = "(nat \<times> int) list"

type_synonym redis_db = "string \<Rightarrow> zset"

datatype redis_server = Unreachable | Reachable redis_db

datatype redis_conn = Redis

fun decimal :: "nat \<Rightarrow> nat list" where
  "decimal n = (if n < 10 then [n] else decimal (n div 10) @ [n mod 10])"

declare decimal.simps [simp del]

text \<open>
  Redis keeps a score as an IEEE double. The client sends the integer as decimal text and
  the server parses it to the nearest double, ties to even: an integer below \<open>2^53\<close>
  in magnitude is kept exactly, a larger one keeps its 53 leading bits, and one that rounds
  past the largest finite double becomes infinite, which the model writes as \<open>2^1024\<close>
  (above every finite double; only the order of scores is ever observed).
\<close>

fun bit_length :: "nat \<Rightarrow> nat" where
  "bit_length n = (if n = 0 then 0 else Suc (bit_length (n div 2)))"

declare bit_length.simps [simp del]

definition round_to_double :: "nat \<Rightarrow> nat" where
  "round_to_double a =
     (if a < 9007199254740992 then a
      else
        (let e = bit_length a - 53;
             q = a div 2 ^ e;
             r = a mod 2 ^ e;
             q' = (if 2 ^ e < 2 * r \<or> (2 * r = 2 ^ e \<and> odd q) then q + 1 else q);
             m = q' * 2 ^ e
         in if 2 ^ 1024 \<le> m then 2 ^ 1024 else m))"

definition double_of_int :: "int \<Rightarrow> int" where
  "double_of_int x =
     (if x < 0 then - int (round_to_double (nat (- x))) else int (round_to_double (nat x)))"

text \<open>
  ZADD: the score of a tracked member is overwritten, a new member is added; the score
  kept is the double the server parsed.
\<close>

fun zset_add :: "zset \<Rightarrow> nat \<Rightarrow> int \<Rightarrow> zset" where
  "zset_add [] m s = [(m, double_of_int s)]"
| "zset_add ((m', s') # z) m s =
     (if m' = m then (m, double_of_int s) # z else (m', s') # zset_add z m s)"

definition zset_key :: "nat \<times> int \<Rightarrow> int \<times> nat list" where
  "zset_key e = (snd e, decimal (fst e))"

text \<open>ZRANGE / ZREVRANGE with inclusive, non-negative bounds.\<close>

definition zset_range :: "zset \<Rightarrow> nat \<Rightarrow> nat \<Rightarrow> nat list" where
  "zset_range z start stop =
     map fst (take (Suc stop - start) (drop start (sort_key zset_key z)))"

definition zset_revrange :: "zset \<Rightarrow> nat \<Rightarrow> nat \<Rightarrow> nat list" where
  "zset_revrange z start stop =
     map fst (take (Suc stop - start) (drop start (rev (sort_key zset_key z))))"

text \<open>
  \<open>config/utils/redis_handler.py\<close>: \<open>RedisClient.__new__\<close> catches the
  \<open>ConnectionError\<close> of the first \<open>ping\<close> and stores \<open>None\<close>;
  \<open>redis_client = RedisClient().get_redis()\<close> is that attribute.
\<close>

definition redis_client :: "redis_server \<Rightarrow> redis_conn option" where
  "redis_client at_startup =
     (case at_startup of Unreachable \<Rightarrow> None | Reachable _ \<Rightarrow> Some Redis)"

text \<open>
  A command on the handle \<open>r\<close>: a method call on \<open>None\<close> raises
  \<open>AttributeError\<close>, a command sent to an unreachable server raises
  \<open>ConnectionError\<close>.
\<close>

definition zadd ::
  "redis_conn option \<Rightarrow> redis_server \<Rightarrow> string \<Rightarrow> nat \<Rightarrow> int \<Rightarrow> error + redis_server" where
  "zadd r srv name m score =
     (case r of
        None \<Rightarrow> Inl AttributeError
      | Some _ \<Rightarrow>
          (case srv of
             Unreachable \<Rightarrow> Inl ConnectionError
           | Reachable s \<Rightarrow> Inr (Reachable (s(name := zset_add (s name) m score)))))"

definition zrange ::
  "redis_conn option \<Rightarrow> redis_server \<Rightarrow> string \<Rightarrow> nat \<Rightarrow> nat \<Rightarrow> bool \<Rightarrow> error + nat list" where
  "zrange r srv name start stop desc =
     (case r of
        None \<Rightarrow> Inl AttributeError
      | Some _ \<Rightarrow>
          (case srv of
             Unreachable \<Rightarrow> Inl ConnectionError
           | Reachable s \<Rightarrow>
               Inr (if desc then zset_revrange (s name) start stop
                    else zset_range (s name) start stop)))"

section \<open>Recency Tracker\<close>

definition redis_key :: "custom_user \<Rightarrow> string" where
  "redis_key u = email u @ '':RecentlyViewedBoards''"

record datetime =
  dt_year :: nat
  dt_month :: nat
  dt_day :: nat
  dt_hour :: nat
  dt_minute :: nat
  dt_second :: nat

text \<open>
  \<open>int(timezone.now().strftime("%Y%m%d%H%M%S"))\<close>: the fields after the year are
  padded to two digits.
\<close>

definition cur_time_int :: "datetime \<Rightarrow> int" where
  "cur_time_int now =
     int (dt_year now * 10000000000 + dt_month now * 100000000 + dt_day now * 1000000
          + dt_hour now * 10000 + dt_minute now * 100 + dt_second now)"

text \<open>
  The two store calls of \<open>boards/views.py\<close>: line 166 records a view
  (the spec's \<open>recordView\<close>), line 51 reads the four most recent ids
  (the spec's \<open>topRecent\<close>).
\<close>

definition record_view ::
  "redis_conn option \<Rightarrow> redis_server \<Rightarrow> custom_user \<Rightarrow> nat \<Rightarrow> int \<Rightarrow> error + redis_server" where
  "record_view r srv u board_pk score = zadd r srv (redis_key u) board_pk score"

definition recent_board_ids ::
  "redis_conn option \<Rightarrow> redis_server \<Rightarrow> custom_user \<Rightarrow> error + nat list" where
  "recent_board_ids r srv u = zrange r srv (redis_key u) 0 3 True"

text \<open>The sorted set after a sequence of ZADD commands.\<close>

definition views_zset :: "zset \<Rightarrow> (nat \<times> int) list \<Rightarrow> zset" where
  "views_zset z cs = foldl (\<lambda>z c. zset_add z (fst c) (snd c)) z cs"

text \<open>The timestamp last recorded for a board in a sequence of views.\<close>

fun last_recorded :: "(nat \<times> int) list \<Rightarrow> nat \<Rightarrow> int option" where
  "last_recorded [] b = None"
| "last_recorded ((b', t) # cs) b =
     (case last_recorded cs b of
        Some t' \<Rightarrow> Some t'
      | None \<Rightarrow> (if b' = b then Some t else None))"

section \<open>Permissions\<close>

text \<open>
  Modelled from the spec: \<open>CanViewBoard\<close> of \<open>boards/permissions.py\<close> is not among
  the sources. The spec makes \<open>canView(user, board)\<close> the gating predicate of the
  board-scoped resources, so its object permission is \<open>can_view_board\<close> of the
  requester on the board handed to \<open>check_object_permissions\<close>.
\<close>

definition CanViewBoard :: "db \<Rightarrow> custom_user \<Rightarrow> board \<Rightarrow> error + bool" where
  "CanViewBoard d u b = can_view_board d u b"

text \<open>\<open>rest_framework.permissions.AllowAny\<close> grants every request.\<close>

definition AllowAny :: "error + bool" where
  "AllowAny = Inr True"

text \<open>
  Modelled from the spec: \<open>IsProjectMember\<close> of \<open>projects/permissions.py\<close> is not
  among the sources. The spec has the caller verify that the requester is a member of the
  project before the project scope is used.
\<close>

definition IsProjectMember :: "db \<Rightarrow> custom_user \<Rightarrow> project_row \<Rightarrow> error + bool" where
  "IsProjectMember d u p = Inr (is_member d u (project_id p))"

text \<open>\<open>check_object_permissions\<close> raises \<open>PermissionDenied\<close> when the permission says no.\<close>

definition check_object_permissions :: "error + bool \<Rightarrow> error + unit" where
  "check_object_permissions granted =
     (case granted of
        Inl e \<Rightarrow> Inl e
      | Inr True \<Rightarrow> Inr ()
      | Inr False \<Rightarrow> Inl PermissionDenied)"

section \<open>Board views\<close>

definition lower_char :: "char \<Rightarrow> char" where
  "lower_char c =
     (if CHR ''A'' \<le> c \<and> c \<le> CHR ''Z'' then char_of (of_char c + (32::nat)) else c)"

fun starts_with :: "string \<Rightarrow> string \<Rightarrow> bool" where
  "starts_with xs [] = True"
| "starts_with [] (y # ys) = False"
| "starts_with (x # xs) (y # ys) = (x = y \<and> starts_with xs ys)"

fun contains :: "string \<Rightarrow> string \<Rightarrow> bool" where
  "contains [] s = starts_with [] s"
| "contains (x # xs) s = (starts_with (x # xs) s \<or> contains xs s)"

text \<open>The \<open>title__icontains\<close> lookup, with ASCII case folding.\<close>

definition icontains :: "string \<Rightarrow> string \<Rightarrow> bool" where
  "icontains t s = contains (map lower_char t) (map lower_char s)"

text \<open>\<open>BoardList.get_project\<close>, lines 39-42.\<close>

definition BoardList_get_project :: "db \<Rightarrow> custom_user \<Rightarrow> nat \<Rightarrow> error + project_row" where
  "BoardList_get_project d u pk =
     (case get_object_or_404 (\<lambda>p. project_id p = pk) (projects d) of
        Inl e \<Rightarrow> Inl e
      | Inr p \<Rightarrow>
          (case check_object_permissions (IsProjectMember d u p) of
             Inl e \<Rightarrow> Inl e
           | Inr _ \<Rightarrow> Inr p))"

text \<open>
  The scope of lines 57-66: without a project id, the requester's own boards and the
  boards of the projects listed by the requester's membership rows; with one, the boards
  of that project, after \<open>get_project\<close> has checked the requester.
\<close>

definition board_scope :: "db \<Rightarrow> custom_user \<Rightarrow> nat option \<Rightarrow> error + board list" where
  "board_scope d u project_id_param =
     (case project_id_param of
        None \<Rightarrow>
          (let project_ids = map project (filter (\<lambda>pm. member pm = user_id u) (memberships d))
           in Inr (filter
                (\<lambda>b. (owner_id b = user_id u
                         \<and> owner_model b = ContentType_objects_get ''customuser'')
                      \<or> (owner_id b \<in> set project_ids
                         \<and> owner_model b = ContentType_objects_get ''project''))
                (boards d)))
      | Some pid \<Rightarrow>
          (let queryset = filter
                 (\<lambda>b. owner_id b = pid \<and> owner_model b = ContentType_objects_get ''project'')
                 (boards d)
           in case BoardList_get_project d u pid of
                Inl e \<Rightarrow> Inl e
              | Inr _ \<Rightarrow> Inr queryset))"

text \<open>
  \<open>BoardList.get_queryset\<close>, lines 44-70. With \<open>sort=recent\<close> the result is the
  boards whose primary key is among the recent ids, ordered by the position of the key
  in that list.
\<close>

definition BoardList_get_queryset ::
  "redis_conn option \<Rightarrow> redis_server \<Rightarrow> db \<Rightarrow> custom_user
     \<Rightarrow> nat option \<Rightarrow> string option \<Rightarrow> string option \<Rightarrow> error + board list" where
  "BoardList_get_queryset r srv d u project_id_param sort_param search =
     (if sort_param = Some ''recent'' then
        (case recent_board_ids r srv u of
           Inl e \<Rightarrow> Inl e
         | Inr board_ids \<Rightarrow>
             Inr (sort_key (\<lambda>b. length (takeWhile (\<lambda>pk. pk \<noteq> board_id b) board_ids))
                    (filter (\<lambda>b. board_id b \<in> set board_ids) (boards d))))
      else
        (case board_scope d u project_id_param of
           Inl e \<Rightarrow> Inl e
         | Inr queryset \<Rightarrow>
             (case search of
                Some q \<Rightarrow> Inr (take 2 (filter (\<lambda>b. icontains (board_title b) q) queryset))
              | None \<Rightarrow> Inr (sort_key board_title queryset))))"

text \<open>\<open>BoardDetail.get_queryset\<close>, lines 155-160.\<close>

definition BoardDetail_get_queryset :: "db \<Rightarrow> custom_user \<Rightarrow> board list" where
  "BoardDetail_get_queryset d u =
     (let project_ids = map project (filter (\<lambda>pm. member pm = user_id u) (memberships d))
      in filter
           (\<lambda>b. (owner_id b = user_id u
                    \<and> owner_model b = ContentType_objects_get ''customuser'')
                 \<or> (owner_id b \<in> set project_ids
                    \<and> owner_model b = ContentType_objects_get ''project''))
           (boards d))"

text \<open>
  \<open>BoardDetail.get_object\<close>, lines 162-167: the view is recorded first, then the
  generic \<open>get_object\<close> looks the board up in the queryset and checks the permission.
  The store keeps the recorded view whatever the lookup does, so the result is the
  outcome paired with the store.
\<close>

definition BoardDetail_get_object ::
  "redis_conn option \<Rightarrow> redis_server \<Rightarrow> db \<Rightarrow> custom_user \<Rightarrow> datetime \<Rightarrow> nat
     \<Rightarrow> (error + board) \<times> redis_server" where
  "BoardDetail_get_object r srv d u now pk =
     (case record_view r srv u pk (cur_time_int now) of
        Inl e \<Rightarrow> (Inl e, srv)
      | Inr srv' \<Rightarrow>
          (case get_object_or_404 (\<lambda>b. board_id b = pk) (BoardDetail_get_queryset d u) of
             Inl e \<Rightarrow> (Inl e, srv')
           | Inr b \<Rightarrow>
               (case check_object_permissions (CanViewBoard d u b) of
                  Inl e \<Rightarrow> (Inl e, srv')
                | Inr _ \<Rightarrow> (Inr b, srv'))))"

subsection \<open>Sequences of board retrievals\<close>

text \<open>
  A sequence of requests to the board detail view, each by some user at some time for
  some primary key. The store is threaded through \<open>BoardDetail.get_object\<close>; the
  database is not changed by a retrieval.
\<close>

fun board_detail_requests ::
  "redis_conn option \<Rightarrow> redis_server \<Rightarrow> db \<Rightarrow> (custom_user \<times> datetime \<times> nat) list
     \<Rightarrow> redis_server" where
  "board_detail_requests r srv d [] = srv"
| "board_detail_requests r srv d ((v, now, pk) # reqs) =
     board_detail_requests r (snd (BoardDetail_get_object r srv d v now pk)) d reqs"

text \<open>
  The views of a sequence that belong to a user, as (board id, timestamp) pairs in the
  order of the requests; the email identifies the user, as it does in the store.
\<close>

definition views_by :: "custom_user \<Rightarrow> (custom_user \<times> datetime \<times> nat) list \<Rightarrow> (nat \<times> int) list" where
  "views_by u reqs =
     map (\<lambda>q. (snd (snd q), cur_time_int (fst (snd q))))
       (filter (\<lambda>q. email (fst q) = email u) reqs)"

text \<open>The ranges of the fields of a Python \<open>datetime\<close>.\<close>

definition valid_datetime :: "datetime \<Rightarrow> bool" where
  "valid_datetime now =
     (1 \<le> dt_year now \<and> dt_year now \<le> 9999 \<and> 1 \<le> dt_month now \<and> dt_month now \<le> 12
      \<and> 1 \<le> dt_day now \<and> dt_day now \<le> 31 \<and> dt_hour now \<le> 23 \<and> dt_minute now \<le> 59
      \<and> dt_second now \<le> 59)"

subsection \<open>Saving through the serializer\<close>

text \<open>
  \<open>BoardSerializer\<close> is not among the sources: its \<open>validated_data\<close> is a parameter,
  a partial assignment to the fields of a board. \<open>serializer.save(**kwargs)\<close> merges
  the keyword arguments over the validated data, sets each attribute and saves the row.
\<close>

record board_fields =
  f_title :: "string option"
  f_image :: "string option option"
  f_image_url :: "string option"
  f_color :: "string option"

definition no_fields :: board_fields where
  "no_fields = \<lparr>f_title = None, f_image = None, f_image_url = None, f_color = None\<rparr>"

definition override :: "'a option \<Rightarrow> 'a option \<Rightarrow> 'a option" where
  "override v kw = (case kw of Some x \<Rightarrow> Some x | None \<Rightarrow> v)"

definition merge_fields :: "board_fields \<Rightarrow> board_fields \<Rightarrow> board_fields" where
  "merge_fields v kw =
     \<lparr>f_title = override (f_title v) (f_title kw),
      f_image = override (f_image v) (f_image kw),
      f_image_url = override (f_image_url v) (f_image_url kw),
      f_color = override (f_color v) (f_color kw)\<rparr>"

definition set_board_fields :: "board_fields \<Rightarrow> board \<Rightarrow> board" where
  "set_board_fields f b =
     b\<lparr>board_title := (case f_title f of Some x \<Rightarrow> x | None \<Rightarrow> board_title b),
       image := (case f_image f of Some x \<Rightarrow> x | None \<Rightarrow> image b),
       image_url := (case f_image_url f of Some x \<Rightarrow> x | None \<Rightarrow> image_url b),
       color := (case f_color f of Some x \<Rightarrow> x | None \<Rightarrow> color b)\<rparr>"

text \<open>\<open>Model.save\<close>: the row with the instance's primary key is replaced, or inserted.\<close>

definition board_save :: "db \<Rightarrow> board \<Rightarrow> db" where
  "board_save d b =
     d\<lparr>boards :=
         (if list_ex (\<lambda>x. board_id x = board_id b) (boards d)
          then map (\<lambda>x. if board_id x = board_id b then b else x) (boards d)
          else boards d @ [b])\<rparr>"

definition BoardSerializer_save :: "db \<Rightarrow> board \<Rightarrow> board_fields \<Rightarrow> board_fields \<Rightarrow> db" where
  "BoardSerializer_save d instance validated_data kwargs =
     board_save d (set_board_fields (merge_fields validated_data kwargs) instance)"

text \<open>
  \<open>BoardDetail.perform_update\<close>, lines 169-180; \<open>req_data\<close> is the set of keys of
  \<open>request.data\<close>.
\<close>

definition BoardDetail_perform_update ::
  "db \<Rightarrow> board \<Rightarrow> string set \<Rightarrow> board_fields \<Rightarrow> db" where
  "BoardDetail_perform_update d instance req_data validated_data =
     (if ''image'' \<in> req_data then
        BoardSerializer_save d instance validated_data
          (no_fields\<lparr>f_image_url := Some '''', f_color := Some ''''\<rparr>)
      else if ''image_url'' \<in> req_data then
        BoardSerializer_save d instance validated_data
          (no_fields\<lparr>f_image := Some None, f_color := Some ''''\<rparr>)
      else if ''color'' \<in> req_data then
        BoardSerializer_save d instance validated_data
          (no_fields\<lparr>f_image := Some None, f_image_url := Some ''''\<rparr>)
      else d)"

text \<open>The board as the database holds it after an operation.\<close>

definition stored_board :: "db \<Rightarrow> nat \<Rightarrow> error + board" where
  "stored_board d pk = objects_get (\<lambda>b. board_id b = pk) (boards d)"

section \<open>Detail views of the board-scoped resources\<close>

text \<open>
  Foreign keys hold the primary key of the parent row; following one reads the parent
  table. \<open>item.list.board\<close> is the board reached through the parent chain of an item.
\<close>

definition list_board_obj :: "db \<Rightarrow> list_row \<Rightarrow> error + board" where
  "list_board_obj d l = objects_get (\<lambda>b. board_id b = list_board l) (boards d)"

definition item_board :: "db \<Rightarrow> item \<Rightarrow> error + board" where
  "item_board d i =
     (case objects_get (\<lambda>l. list_id l = item_list i) (lists d) of
        Inl e \<Rightarrow> Inl e
      | Inr l \<Rightarrow> list_board_obj d l)"

definition label_board_obj :: "db \<Rightarrow> label \<Rightarrow> error + board" where
  "label_board_obj d l = objects_get (\<lambda>b. board_id b = label_board l) (boards d)"

definition attachment_board :: "db \<Rightarrow> attachment \<Rightarrow> error + board" where
  "attachment_board d a =
     (case objects_get (\<lambda>i. item_id i = attachment_item a) (items d) of
        Inl e \<Rightarrow> Inl e
      | Inr i \<Rightarrow> item_board d i)"

text \<open>
  The retrieve, update and destroy handlers of a \<open>RetrieveUpdateDestroyAPIView\<close> all
  start with \<open>self.get_object()\<close> and go on only when it returns.
  \<open>ListDetail.get_object\<close>, lines 284-288.
\<close>

definition ListDetail_get_object :: "db \<Rightarrow> custom_user \<Rightarrow> nat \<Rightarrow> error + list_row" where
  "ListDetail_get_object d u pk =
     (case get_object_or_404 (\<lambda>l. list_id l = pk) (lists d) of
        Inl e \<Rightarrow> Inl e
      | Inr l \<Rightarrow>
          (case list_board_obj d l of
             Inl e \<Rightarrow> Inl e
           | Inr b \<Rightarrow>
               (case check_object_permissions (CanViewBoard d u b) of
                  Inl e \<Rightarrow> Inl e
                | Inr _ \<Rightarrow> Inr l)))"

text \<open>\<open>ItemDetail.get_object\<close>, lines 400-404.\<close>

definition ItemDetail_get_object :: "db \<Rightarrow> custom_user \<Rightarrow> nat \<Rightarrow> error + item" where
  "ItemDetail_get_object d u pk =
     (case get_object_or_404 (\<lambda>i. item_id i = pk) (items d) of
        Inl e \<Rightarrow> Inl e
      | Inr i \<Rightarrow>
          (case item_board d i of
             Inl e \<Rightarrow> Inl e
           | Inr b \<Rightarrow>
               (case check_object_permissions (CanViewBoard d u b) of
                  Inl e \<Rightarrow> Inl e
                | Inr _ \<Rightarrow> Inr i)))"

text \<open>
  The module defines \<open>LabelDetail\<close> twice. The first class (lines 588-596) checks the
  label's board; the second (lines 599-604) rebinds the name, so it is the view the module
  exports: the generic \<open>get_object\<close> over all labels under \<open>AllowAny\<close>.
\<close>

definition LabelDetail_first_get_object :: "db \<Rightarrow> custom_user \<Rightarrow> nat \<Rightarrow> error + label" where
  "LabelDetail_first_get_object d u pk =
     (case get_object_or_404 (\<lambda>l. label_id l = pk) (label_rows d) of
        Inl e \<Rightarrow> Inl e
      | Inr l \<Rightarrow>
          (case label_board_obj d l of
             Inl e \<Rightarrow> Inl e
           | Inr b \<Rightarrow>
               (case check_object_permissions (CanViewBoard d u b) of
                  Inl e \<Rightarrow> Inl e
                | Inr _ \<Rightarrow> Inr l)))"

definition LabelDetail_get_object :: "db \<Rightarrow> custom_user \<Rightarrow> nat \<Rightarrow> error + label" where
  "LabelDetail_get_object d u pk =
     (case get_object_or_404 (\<lambda>l. label_id l = pk) (label_rows d) of
        Inl e \<Rightarrow> Inl e
      | Inr l \<Rightarrow>
          (case check_object_permissions AllowAny of
             Inl e \<Rightarrow> Inl e
           | Inr _ \<Rightarrow> Inr l))"

text \<open>\<open>AttachmentDetail\<close>, lines 615-620: the generic \<open>get_object\<close> under \<open>AllowAny\<close>.\<close>

definition AttachmentDetail_get_object :: "db \<Rightarrow> custom_user \<Rightarrow> nat \<Rightarrow> error + attachment" where
  "AttachmentDetail_get_object d u pk =
     (case get_object_or_404 (\<lambda>a. attachment_id a = pk) (attachments d) of
        Inl e \<Rightarrow> Inl e
      | Inr a \<Rightarrow>
          (case check_object_permissions AllowAny of
             Inl e \<Rightarrow> Inl e
           | Inr _ \<Rightarrow> Inr a))"

section \<open>Item update\<close>

text \<open>
  \<open>QuerySet.get(keyword=value)\<close> on \<open>CustomUser\<close> for a text value. The keyword is
  resolved against the columns of the model before any row is read, and a keyword that
  names none raises \<open>FieldError\<close>. \<open>CustomUser\<close> declares the text columns
  \<open>email\<close>, \<open>first_name\<close> and \<open>last_name\<close>; its \<open>USERNAME_FIELD\<close> is
  \<open>email\<close>, and neither the class nor its bases \<open>AbstractBaseUser\<close> and
  \<open>PermissionsMixin\<close> declare a column called \<open>username\<close>.
\<close>

definition CustomUser_text_column :: "string \<Rightarrow> (custom_user \<Rightarrow> string) option" where
  "CustomUser_text_column keyword =
     (if keyword = ''email'' then Some email
      else if keyword = ''first_name'' then Some first_name
      else if keyword = ''last_name'' then Some last_name
      else None)"

definition User_get_object_or_404 :: "string \<Rightarrow> string \<Rightarrow> custom_user list \<Rightarrow> error + custom_user" where
  "User_get_object_or_404 keyword v rows =
     (case CustomUser_text_column keyword of
        None \<Rightarrow> Inl FieldError
      | Some column \<Rightarrow> get_object_or_404 (\<lambda>u. column u = v) rows)"

text \<open>\<open>ItemDetail.get_user\<close>, lines 380-385.\<close>

definition ItemDetail_get_user :: "db \<Rightarrow> string \<Rightarrow> board \<Rightarrow> error + custom_user option" where
  "ItemDetail_get_user d username b =
     (case User_get_object_or_404 ''username'' username (users d) of
        Inl e \<Rightarrow> Inl e
      | Inr user \<Rightarrow>
          (case can_view_board d user b of
             Inl e \<Rightarrow> Inl e
           | Inr True \<Rightarrow> Inr (Some user)
           | Inr False \<Rightarrow> Inr None))"

text \<open>
  \<open>ItemDetail.get_label\<close> and \<open>ItemDetail.get_list\<close>, lines 387-398; two model
  instances are equal when their primary keys are.
\<close>

definition ItemDetail_get_label :: "db \<Rightarrow> nat \<Rightarrow> board \<Rightarrow> error + label option" where
  "ItemDetail_get_label d pk b =
     (case get_object_or_404 (\<lambda>l. label_id l = pk) (label_rows d) of
        Inl e \<Rightarrow> Inl e
      | Inr l \<Rightarrow> (if board_id b = label_board l then Inr (Some l) else Inr None))"

definition ItemDetail_get_list :: "db \<Rightarrow> nat \<Rightarrow> board \<Rightarrow> error + list_row option" where
  "ItemDetail_get_list d pk b =
     (case get_object_or_404 (\<lambda>l. list_id l = pk) (lists d) of
        Inl e \<Rightarrow> Inl e
      | Inr l \<Rightarrow> (if board_id b = list_board l then Inr (Some l) else Inr None))"

text \<open>
  \<open>request.data\<close> of an item update: the values under the keys \<open>assigned_to\<close>,
  \<open>labels\<close> and \<open>list\<close> when present, and the set of the other keys.
\<close>

record item_request =
  data_assigned_to :: "string option"
  data_labels :: "nat option"
  data_list :: "nat option"
  data_keys :: "string set"

text \<open>
  \<open>ItemSerializer\<close> is not among the sources: its \<open>validated_data\<close> is a parameter,
  a partial assignment to the scalar fields of an item.
\<close>

record item_fields =
  i_title :: "string option"
  i_image :: "string option option"
  i_image_url :: "string option"
  i_color :: "string option"
  i_list :: "nat option"

definition no_item_fields :: item_fields where
  "no_item_fields =
     \<lparr>i_title = None, i_image = None, i_image_url = None, i_color = None, i_list = None\<rparr>"

definition merge_item_fields :: "item_fields \<Rightarrow> item_fields \<Rightarrow> item_fields" where
  "merge_item_fields v kw =
     \<lparr>i_title = override (i_title v) (i_title kw),
      i_image = override (i_image v) (i_image kw),
      i_image_url = override (i_image_url v) (i_image_url kw),
      i_color = override (i_color v) (i_color kw),
      i_list = override (i_list v) (i_list kw)\<rparr>"

definition set_item_fields :: "item_fields \<Rightarrow> item \<Rightarrow> item" where
  "set_item_fields f i =
     i\<lparr>item_title := (case i_title f of Some x \<Rightarrow> x | None \<Rightarrow> item_title i),
       item_list := (case i_list f of Some x \<Rightarrow> x | None \<Rightarrow> item_list i),
       item_image := (case i_image f of Some x \<Rightarrow> x | None \<Rightarrow> item_image i),
       item_image_url := (case i_image_url f of Some x \<Rightarrow> x | None \<Rightarrow> item_image_url i),
       item_color := (case i_color f of Some x \<Rightarrow> x | None \<Rightarrow> item_color i)\<rparr>"

definition item_save :: "db \<Rightarrow> item \<Rightarrow> db" where
  "item_save d i =
     d\<lparr>items :=
         (if list_ex (\<lambda>x. item_id x = item_id i) (items d)
          then map (\<lambda>x. if item_id x = item_id i then i else x) (items d)
          else items d @ [i])\<rparr>"

definition ItemSerializer_save :: "db \<Rightarrow> item \<Rightarrow> item_fields \<Rightarrow> item_fields \<Rightarrow> item \<times> db" where
  "ItemSerializer_save d instance validated_data kwargs =
     (let i = set_item_fields (merge_item_fields validated_data kwargs) instance
      in (i, item_save d i))"

text \<open>Lines 437-444 of \<open>ItemDetail.perform_update\<close>: here the last branch saves too.\<close>

definition item_update_appearance ::
  "db \<Rightarrow> item \<Rightarrow> string set \<Rightarrow> item_fields \<Rightarrow> item \<times> db" where
  "item_update_appearance d instance req_data validated_data =
     (if ''image'' \<in> req_data then
        ItemSerializer_save d instance validated_data
          (no_item_fields\<lparr>i_image_url := Some '''', i_color := Some ''''\<rparr>)
      else if ''image_url'' \<in> req_data then
        ItemSerializer_save d instance validated_data
          (no_item_fields\<lparr>i_image := Some None, i_color := Some ''''\<rparr>)
      else if ''color'' \<in> req_data then
        ItemSerializer_save d instance validated_data
          (no_item_fields\<lparr>i_image := Some None, i_image_url := Some ''''\<rparr>)
      else ItemSerializer_save d instance validated_data no_item_fields)"

text \<open>
  Lines 450-453 and 459-462: the key is removed when the relation holds it and added
  otherwise.
\<close>

definition toggle :: "nat \<Rightarrow> nat set \<Rightarrow> nat set" where
  "toggle k s = (if k \<in> s then s - {k} else insert k s)"

text \<open>
  Lines 446-453. \<open>user.pk\<close> on the \<open>None\<close> that \<open>get_user\<close> returns for a user
  who cannot view the board raises \<open>AttributeError\<close>.
\<close>

definition item_update_assigned_to ::
  "db \<Rightarrow> item \<Rightarrow> string option \<Rightarrow> (error + item) \<times> db" where
  "item_update_assigned_to d i assigned =
     (case assigned of
        None \<Rightarrow> (Inr i, d)
      | Some username \<Rightarrow>
          (case item_board d i of
             Inl e \<Rightarrow> (Inl e, d)
           | Inr b \<Rightarrow>
               (case ItemDetail_get_user d username b of
                  Inl e \<Rightarrow> (Inl e, d)
                | Inr None \<Rightarrow> (Inl AttributeError, d)
                | Inr (Some user) \<Rightarrow>
                    (let i' = i\<lparr>assigned_to := toggle (user_id user) (assigned_to i)\<rparr>
                     in (Inr i', item_save d i')))))"

text \<open>Lines 455-462.\<close>

definition item_update_labels ::
  "db \<Rightarrow> item \<Rightarrow> nat option \<Rightarrow> (error + item) \<times> db" where
  "item_update_labels d i label_pk =
     (case label_pk of
        None \<Rightarrow> (Inr i, d)
      | Some pk \<Rightarrow>
          (case item_board d i of
             Inl e \<Rightarrow> (Inl e, d)
           | Inr b \<Rightarrow>
               (case ItemDetail_get_label d pk b of
                  Inl e \<Rightarrow> (Inl e, d)
                | Inr None \<Rightarrow> (Inl AttributeError, d)
                | Inr (Some l) \<Rightarrow>
                    (let i' = i\<lparr>labels := toggle (label_id l) (labels i)\<rparr>
                     in (Inr i', item_save d i')))))"

text \<open>
  Lines 464-466. The \<open>None\<close> of \<open>get_list\<close> would be saved as the item's list; the
  column does not take it, which the model reports as \<open>BadRequest\<close>.
\<close>

definition item_update_list ::
  "db \<Rightarrow> item \<Rightarrow> nat option \<Rightarrow> item_fields \<Rightarrow> (error + item) \<times> db" where
  "item_update_list d i list_pk validated_data =
     (case list_pk of
        None \<Rightarrow> (Inr i, d)
      | Some pk \<Rightarrow>
          (case item_board d i of
             Inl e \<Rightarrow> (Inl e, d)
           | Inr b \<Rightarrow>
               (case ItemDetail_get_list d pk b of
                  Inl e \<Rightarrow> (Inl e, d)
                | Inr None \<Rightarrow> (Inl (BadRequest ''list''), d)
                | Inr (Some l) \<Rightarrow>
                    (case ItemSerializer_save d i validated_data
                            (no_item_fields\<lparr>i_list := Some (list_id l)\<rparr>) of
                       (i', d') \<Rightarrow> (Inr i', d')))))"

text \<open>\<open>ItemDetail.perform_update\<close>, lines 433-466.\<close>

definition ItemDetail_perform_update ::
  "db \<Rightarrow> item \<Rightarrow> item_request \<Rightarrow> item_fields \<Rightarrow> (error + item) \<times> db" where
  "ItemDetail_perform_update d instance req_data validated_data =
     (case item_update_appearance d instance (data_keys req_data) validated_data of
        (i1, d1) \<Rightarrow>
          (case item_update_assigned_to d1 i1 (data_assigned_to req_data) of
             (Inl e, d2) \<Rightarrow> (Inl e, d2)
           | (Inr i2, d2) \<Rightarrow>
               (case item_update_labels d2 i2 (data_labels req_data) of
                  (Inl e, d3) \<Rightarrow> (Inl e, d3)
                | (Inr i3, d3) \<Rightarrow>
                    item_update_list d3 i3 (data_list req_data) validated_data)))"

text \<open>
  The three checks of \<open>ItemDetail.put\<close>, lines 413-429: each answers 400 when its
  helper returns \<open>None\<close>.
\<close>

definition put_checks :: "db \<Rightarrow> item_request \<Rightarrow> board \<Rightarrow> error + unit" where
  "put_checks d req_data b =
     (case (case data_assigned_to req_data of
              None \<Rightarrow> Inr ()
            | Some username \<Rightarrow>
                (case ItemDetail_get_user d username b of
                   Inl e \<Rightarrow> Inl e
                 | Inr None \<Rightarrow> Inl (BadRequest ''assigned_to'')
                 | Inr (Some _) \<Rightarrow> Inr ())) of
        Inl e \<Rightarrow> Inl e
      | Inr _ \<Rightarrow>
          (case (case data_labels req_data of
                   None \<Rightarrow> Inr ()
                 | Some pk \<Rightarrow>
                     (case ItemDetail_get_label d pk b of
                        Inl e \<Rightarrow> Inl e
                      | Inr None \<Rightarrow> Inl (BadRequest ''labels'')
                      | Inr (Some _) \<Rightarrow> Inr ())) of
             Inl e \<Rightarrow> Inl e
           | Inr _ \<Rightarrow>
               (case data_list req_data of
                  None \<Rightarrow> Inr ()
                | Some pk \<Rightarrow>
                    (case ItemDetail_get_list d pk b of
                       Inl e \<Rightarrow> Inl e
                     | Inr None \<Rightarrow> Inl (BadRequest ''list'')
                     | Inr (Some _) \<Rightarrow> Inr ()))))"

text \<open>
  \<open>ItemDetail.put\<close>, lines 411-431. \<open>super().put\<close> fetches the object again, takes
  the serializer's validated data and calls \<open>perform_update\<close>. The result is the
  outcome paired with the database the request leaves behind.
\<close>

definition ItemDetail_put ::
  "db \<Rightarrow> custom_user \<Rightarrow> nat \<Rightarrow> item_request \<Rightarrow> item_fields \<Rightarrow> (error + item) \<times> db" where
  "ItemDetail_put d u pk req_data validated_data =
     (case ItemDetail_get_object d u pk of
        Inl e \<Rightarrow> (Inl e, d)
      | Inr i \<Rightarrow>
          (case item_board d i of
             Inl e \<Rightarrow> (Inl e, d)
           | Inr b \<Rightarrow>
               (case put_checks d req_data b of
                  Inl e \<Rightarrow> (Inl e, d)
                | Inr _ \<Rightarrow>
                    (case ItemDetail_get_object d u pk of
                       Inl e \<Rightarrow> (Inl e, d)
                     | Inr instance \<Rightarrow>
                         ItemDetail_perform_update d instance req_data validated_data))))"

section \<open>The scope of a user, as a predicate\<close>

text \<open>
  The boards a user may list without naming a project: the user's own boards and the boards
  of the projects the user is a member of.
\<close>

definition in_user_scope :: "db \<Rightarrow> custom_user \<Rightarrow> board \<Rightarrow> bool" where
  "in_user_scope d u b =
     ((owner_model b = ''customuser'' \<and> owner_id b = user_id u)
      \<or> (owner_model b = ''project'' \<and> is_member d u (owner_id b)))"

section \<open>Single active background\<close>

text \<open>The number of appearance fields of a board that hold a value.\<close>

definition active_backgrounds :: "board \<Rightarrow> nat" where
  "active_backgrounds b =
     (if image b = None then 0 else 1) + (if image_url b = '''' then 0 else 1)
       + (if color b = '''' then 0 else 1)"

definition appearance :: "board \<Rightarrow> string option \<times> string \<times> string" where
  "appearance b = (image b, image_url b, color b)"

section \<open>A small database\<close>

text \<open>
  Alice and Bob are members of project 10, Carol is not. Board 100 belongs to the project,
  board 101 to Alice, and board 103 carries the content type of another model as its
  owner kind, with Carol's id as owner id. List 200, item 300, label 400 and attachment
  500 all sit on Alice's board.
\<close>

definition alice :: custom_user where
  "alice =
     \<lparr>user_id = 1, email = ''alice@example.com'', first_name = ''Alice'', last_name = ''A''\<rparr>"

definition bob :: custom_user where
  "bob = \<lparr>user_id = 2, email = ''bob@example.com'', first_name = ''Bob'', last_name = ''B''\<rparr>"

definition carol :: custom_user where
  "carol =
     \<lparr>user_id = 3, email = ''carol@example.com'', first_name = ''Carol'', last_name = ''C''\<rparr>"

definition roadmap :: board where
  "roadmap =
     \<lparr>board_id = 100, board_title = ''Roadmap'', owner_id = 10, owner_model = ''project'',
      image = None, image_url = '''', color = ''blue''\<rparr>"

definition private_board :: board where
  "private_board =
     \<lparr>board_id = 101, board_title = ''Private'', owner_id = 1, owner_model = ''customuser'',
      image = Some ''old.png'', image_url = '''', color = ''''\<rparr>"

definition stray_board :: board where
  "stray_board =
     \<lparr>board_id = 103, board_title = ''Stray'', owner_id = 3, owner_model = ''list'',
      image = None, image_url = '''', color = ''''\<rparr>"

definition task :: item where
  "task =
     \<lparr>item_id = 300, item_title = ''Task'', item_list = 200, item_image = None,
      item_image_url = '''', item_color = '''', assigned_to = {}, labels = {}\<rparr>"

definition example_db :: db where
  "example_db =
     \<lparr>users = [alice, bob, carol],
      memberships = [\<lparr>member = 1, project = 10, access_level = 1\<rparr>,
                     \<lparr>member = 2, project = 10, access_level = 2\<rparr>],
      projects = [\<lparr>project_id = 10, project_owner = 1\<rparr>],
      boards = [roadmap, private_board, stray_board],
      lists = [\<lparr>list_id = 200, list_board = 101\<rparr>, \<lparr>list_id = 201, list_board = 100\<rparr>],
      items = [task],
      label_rows = [\<lparr>label_id = 400, label_board = 101\<rparr>],
      attachments = [\<lparr>attachment_id = 500, attachment_item = 300\<rparr>]\<rparr>"

definition noon :: datetime where
  "noon =
     \<lparr>dt_year = 2025, dt_month = 3, dt_day = 14, dt_hour = 12, dt_minute = 0, dt_second = 0\<rparr>"

definition five_past :: datetime where
  "five_past = noon\<lparr>dt_minute := 5\<rparr>"

definition eleven :: datetime where
  "eleven = noon\<lparr>dt_hour := 11\<rparr>"

text \<open>
  Alice opens board 100 at noon and board 101 five minutes later; her third request
  carries the earlier time of eleven for board 101. Bob opens board 101 in between.
\<close>

definition example_requests :: "(custom_user \<times> datetime \<times> nat) list" where
  "example_requests =
     [(alice, noon, 100), (bob, five_past, 101), (alice, five_past, 101), (alice, eleven, 101)]"

definition empty_store :: redis_db where
  "empty_store = (\<lambda>name. [])"

lemmas example_defs =
  example_db_def alice_def bob_def carol_def roadmap_def private_board_def stray_board_def
  task_def noon_def five_past_def eleven_def example_requests_def empty_store_def

section \<open>Properties of the Access Evaluator\<close>

lemma filter_distinct_key:
  assumes "distinct (map f xs)"
  shows "filter (\<lambda>x. f x = k) xs = [] \<or> (\<exists>x. filter (\<lambda>x. f x = k) xs = [x])"
  using assms
proof (induction xs)
  case Nil
  then show ?case by simp
next
  case (Cons a xs)
  show ?case
  proof (cases "f a = k")
    case True
    with Cons.prems have "\<forall>x \<in> set xs. f x \<noteq> k" by (auto simp: image_iff)
    then have "filter (\<lambda>x. f x = k) xs = []" by (simp add: filter_empty_conv)
    with True show ?thesis by simp
  next
    case False
    with Cons show ?thesis by simp
  qed
qed

lemma membership_get_unique:
  assumes "unique_memberships d"
  shows "objects_get (\<lambda>pm. member pm = user_id u \<and> project pm = p) (memberships d)
           = (if is_member d u p
              then Inr (hd (filter (\<lambda>pm. member pm = user_id u \<and> project pm = p) (memberships d)))
              else Inl DoesNotExist)"
proof -
  let ?p = "\<lambda>pm. member pm = user_id u \<and> project pm = p"
  let ?k = "\<lambda>pm. (project pm, member pm)"
  have eq: "filter ?p (memberships d) = filter (\<lambda>pm. ?k pm = (p, user_id u)) (memberships d)"
    by (rule filter_cong) auto
  from assms have "distinct (map ?k (memberships d))"
    by (simp add: unique_memberships_def)
  from filter_distinct_key [OF this, of "(p, user_id u)"]
  have cases: "filter ?p (memberships d) = [] \<or> (\<exists>x. filter ?p (memberships d) = [x])"
    by (simp only: eq)
  have mem: "is_member d u p \<longleftrightarrow> filter ?p (memberships d) \<noteq> []"
    by (simp add: is_member_def list_ex_iff filter_empty_conv)
  from cases show ?thesis
  proof
    assume "filter ?p (memberships d) = []"
    then show ?thesis by (simp add: objects_get_def mem)
  next
    assume "\<exists>x. filter ?p (memberships d) = [x]"
    then obtain x where "filter ?p (memberships d) = [x]" ..
    then show ?thesis by (simp add: objects_get_def mem)
  qed
qed

lemma objects_get_map_cong:
  assumes "\<And>x. p (g x) = p x"
  shows "objects_get p (map g xs) = map_sum id g (objects_get p xs)"
proof -
  have "filter p (map g xs) = map g (filter p xs)"
    by (induction xs) (simp_all add: assms)
  then show ?thesis
    by (simp add: objects_get_def split: list.splits)
qed

text \<open>
  Claim C1. A board whose owner kind is neither user nor project should be denied to
  every user. The code sends every owner kind other than \<open>project\<close> through the
  comparison of ids: Carol views board 103, whose owner kind is the content type
  \<open>list\<close> and whose owner id is her own id.
\<close>

theorem can_view_board_unknown_owner_kind:
  "can_view_board example_db carol stray_board = Inr True"
  by (simp add: can_view_board_def ContentType_objects_get_def example_defs)

text \<open>
  Claim C5. For a board owned by a project, with at most one membership row per
  (project, member), \<open>can_view_board\<close> returns exactly whether the user has a membership
  row in the owning project, and rewriting the access levels of the rows changes nothing.
\<close>

theorem can_view_project_board_iff_member:
  assumes "unique_memberships d"
    and "owner_model b = ContentType_objects_get ''project''"
  shows "can_view_board d u b = Inr (is_member d u (owner_id b))
         \<and> can_view_board
               (d\<lparr>memberships := map (\<lambda>pm. pm\<lparr>access_level := lvl pm\<rparr>) (memberships d)\<rparr>) u b
             = can_view_board d u b"
proof
  show "can_view_board d u b = Inr (is_member d u (owner_id b))"
    using assms(2) by (simp add: can_view_board_def membership_get_unique [OF assms(1)])
next
  let ?p = "\<lambda>pm. member pm = user_id u \<and> project pm = owner_id b"
  let ?g = "\<lambda>pm. pm\<lparr>access_level := lvl pm\<rparr>"
  have "objects_get ?p (map ?g (memberships d)) = map_sum id ?g (objects_get ?p (memberships d))"
    by (rule objects_get_map_cong) simp
  then show "can_view_board (d\<lparr>memberships := map ?g (memberships d)\<rparr>) u b
               = can_view_board d u b"
    by (cases "objects_get ?p (memberships d)") (simp_all add: can_view_board_def)
qed

theorem can_view_project_board_iff_member_witness:
  "unique_memberships example_db
   \<and> owner_model roadmap = ContentType_objects_get ''project''
   \<and> can_view_board example_db bob roadmap = Inr True
   \<and> can_view_board example_db carol roadmap = Inr False"
  using can_view_project_board_iff_member [of example_db roadmap bob]
    can_view_project_board_iff_member [of example_db roadmap carol]
  by (simp add: unique_memberships_def is_member_def ContentType_objects_get_def example_defs)

text \<open>
  Claim C6. For a board owned by a user, \<open>can_view_board\<close> returns exactly whether the
  requester's id is the owner id; the membership rows are not consulted.
\<close>

theorem can_view_user_board_iff_owner:
  assumes "owner_model b = ContentType_objects_get ''customuser''"
  shows "can_view_board d u b = Inr (user_id u = owner_id b)"
  using assms by (auto simp: can_view_board_def ContentType_objects_get_def)

theorem can_view_user_board_iff_owner_witness:
  "owner_model private_board = ContentType_objects_get ''customuser''
   \<and> can_view_board example_db alice private_board = Inr True
   \<and> can_view_board example_db bob private_board = Inr False"
  using can_view_user_board_iff_owner [of private_board example_db alice]
    can_view_user_board_iff_owner [of private_board example_db bob]
  by (simp add: ContentType_objects_get_def example_defs)

section \<open>Properties of the views\<close>

text \<open>
  Claim C2. When the store is unreachable the recency calls should recover locally and the
  request should go on. In the code a store that is down when the process starts leaves
  \<open>None\<close> as the client, and both \<open>BoardDetail.get_object\<close> and the
  \<open>sort=recent\<close> branch of \<open>BoardList.get_queryset\<close> raise \<open>AttributeError\<close>;
  a store that goes down later makes both raise \<open>ConnectionError\<close>. Neither view
  catches the exception, and the board is not returned.
\<close>

theorem store_outage_surfaces:
  "redis_client Unreachable = None
   \<and> BoardDetail_get_object (redis_client Unreachable) Unreachable example_db alice noon 101
       = (Inl AttributeError, Unreachable)
   \<and> BoardList_get_queryset (redis_client Unreachable) Unreachable example_db alice None
       (Some ''recent'') None = Inl AttributeError
   \<and> BoardDetail_get_object (redis_client (Reachable empty_store)) Unreachable example_db alice noon 101
       = (Inl ConnectionError, Unreachable)
   \<and> BoardList_get_queryset (redis_client (Reachable empty_store)) Unreachable example_db alice None
       (Some ''recent'') None = Inl ConnectionError"
  by (simp add: redis_client_def BoardDetail_get_object_def BoardList_get_queryset_def
      record_view_def recent_board_ids_def zadd_def zrange_def)

lemma check_object_permissions_Inr:
  "check_object_permissions g = Inr x \<longleftrightarrow> g = Inr True"
  by (auto simp: check_object_permissions_def split: sum.splits bool.splits)

text \<open>
  Claim C3. Every retrieve, update and delete on a board-scoped record should be denied to
  a user who cannot view the board the record belongs to. Bob cannot view Alice's board
  101, yet the detail views of attachment 500 and of label 400, both on that board, hand
  him the record.
\<close>

theorem attachment_label_detail_not_gated:
  "can_view_board example_db bob private_board = Inr False
   \<and> attachment_board example_db \<lparr>attachment_id = 500, attachment_item = 300\<rparr> = Inr private_board
   \<and> AttachmentDetail_get_object example_db bob 500
       = Inr \<lparr>attachment_id = 500, attachment_item = 300\<rparr>
   \<and> label_board_obj example_db \<lparr>label_id = 400, label_board = 101\<rparr> = Inr private_board
   \<and> LabelDetail_get_object example_db bob 400 = Inr \<lparr>label_id = 400, label_board = 101\<rparr>"
  by (simp add: can_view_board_def ContentType_objects_get_def attachment_board_def item_board_def
      list_board_obj_def label_board_obj_def AttachmentDetail_get_object_def
      LabelDetail_get_object_def get_object_or_404_def objects_get_def
      check_object_permissions_def AllowAny_def example_defs)

text \<open>
  The sibling detail views do what these two miss. Those of lists and items return the
  record only when \<open>can_view_board\<close> holds for the requester on the board reached through
  the parent chain, and answer \<open>PermissionDenied\<close> when it returns \<open>False\<close>; so does the
  first \<open>LabelDetail\<close> class, which the second one shadows.
\<close>

lemma label_detail_first_class_denies:
  "LabelDetail_first_get_object example_db bob 400 = Inl PermissionDenied"
  by (simp add: LabelDetail_first_get_object_def get_object_or_404_def objects_get_def
      label_board_obj_def check_object_permissions_def CanViewBoard_def can_view_board_def
      ContentType_objects_get_def example_defs)

lemma list_item_detail_gated:
  "(ListDetail_get_object d u pk = Inr l \<longrightarrow>
      (\<exists>b. list_board_obj d l = Inr b \<and> can_view_board d u b = Inr True))
   \<and> (get_object_or_404 (\<lambda>l. list_id l = pk) (lists d) = Inr l \<and> list_board_obj d l = Inr b
        \<and> can_view_board d u b = Inr False
      \<longrightarrow> ListDetail_get_object d u pk = Inl PermissionDenied)
   \<and> (ItemDetail_get_object d u pk = Inr i \<longrightarrow>
      (\<exists>b. item_board d i = Inr b \<and> can_view_board d u b = Inr True))
   \<and> (get_object_or_404 (\<lambda>i. item_id i = pk) (items d) = Inr i \<and> item_board d i = Inr b
        \<and> can_view_board d u b = Inr False
      \<longrightarrow> ItemDetail_get_object d u pk = Inl PermissionDenied)
   \<and> AttachmentDetail_get_object d u pk
       = get_object_or_404 (\<lambda>a. attachment_id a = pk) (attachments d)"
proof (intro conjI impI)
  assume "ListDetail_get_object d u pk = Inr l"
  then show "\<exists>b. list_board_obj d l = Inr b \<and> can_view_board d u b = Inr True"
    by (auto simp: ListDetail_get_object_def CanViewBoard_def check_object_permissions_Inr
        split: sum.splits)
next
  assume "get_object_or_404 (\<lambda>l. list_id l = pk) (lists d) = Inr l \<and> list_board_obj d l = Inr b
    \<and> can_view_board d u b = Inr False"
  then show "ListDetail_get_object d u pk = Inl PermissionDenied"
    by (simp add: ListDetail_get_object_def CanViewBoard_def check_object_permissions_def)
next
  assume "ItemDetail_get_object d u pk = Inr i"
  then show "\<exists>b. item_board d i = Inr b \<and> can_view_board d u b = Inr True"
    by (auto simp: ItemDetail_get_object_def CanViewBoard_def check_object_permissions_Inr
        split: sum.splits)
next
  assume "get_object_or_404 (\<lambda>i. item_id i = pk) (items d) = Inr i \<and> item_board d i = Inr b
    \<and> can_view_board d u b = Inr False"
  then show "ItemDetail_get_object d u pk = Inl PermissionDenied"
    by (simp add: ItemDetail_get_object_def CanViewBoard_def check_object_permissions_def)
next
  show "AttachmentDetail_get_object d u pk
       = get_object_or_404 (\<lambda>a. attachment_id a = pk) (attachments d)"
    by (simp add: AttachmentDetail_get_object_def AllowAny_def check_object_permissions_def
        split: sum.splits)
qed

lemma list_item_detail_gated_example:
  "ListDetail_get_object example_db alice 200 = Inr \<lparr>list_id = 200, list_board = 101\<rparr>
   \<and> list_board_obj example_db \<lparr>list_id = 200, list_board = 101\<rparr> = Inr private_board
   \<and> can_view_board example_db alice private_board = Inr True
   \<and> can_view_board example_db bob private_board = Inr False
   \<and> ListDetail_get_object example_db bob 200 = Inl PermissionDenied
   \<and> ItemDetail_get_object example_db alice 300 = Inr task
   \<and> item_board example_db task = Inr private_board
   \<and> ItemDetail_get_object example_db bob 300 = Inl PermissionDenied"
proof -
  have l: "get_object_or_404 (\<lambda>l. list_id l = 200) (lists example_db)
             = Inr \<lparr>list_id = 200, list_board = 101\<rparr>"
    by (simp add: get_object_or_404_def objects_get_def example_defs)
  have lb: "list_board_obj example_db \<lparr>list_id = 200, list_board = 101\<rparr> = Inr private_board"
    by (simp add: list_board_obj_def objects_get_def example_defs)
  have i: "get_object_or_404 (\<lambda>i. item_id i = 300) (items example_db) = Inr task"
    by (simp add: get_object_or_404_def objects_get_def example_defs)
  have ib: "item_board example_db task = Inr private_board"
    by (simp add: item_board_def list_board_obj_def objects_get_def example_defs)
  have a: "can_view_board example_db alice private_board = Inr True"
    by (simp add: can_view_board_def ContentType_objects_get_def example_defs)
  have b: "can_view_board example_db bob private_board = Inr False"
    by (simp add: can_view_board_def ContentType_objects_get_def example_defs)
  have la: "ListDetail_get_object example_db alice 200 = Inr \<lparr>list_id = 200, list_board = 101\<rparr>"
    by (simp add: ListDetail_get_object_def l lb a CanViewBoard_def check_object_permissions_def)
  have ia: "ItemDetail_get_object example_db alice 300 = Inr task"
    by (simp add: ItemDetail_get_object_def i ib a CanViewBoard_def check_object_permissions_def)
  from list_item_detail_gated
    [where d = example_db and u = bob and pk = 200 and b = private_board
       and l = "\<lparr>list_id = 200, list_board = 101\<rparr>"]
    list_item_detail_gated
    [where d = example_db and u = bob and pk = 300 and b = private_board and i = task]
  show ?thesis using l lb i ib a b la ia by simp
qed

lemma project_ids_is_member:
  "p \<in> set (map project (filter (\<lambda>pm. member pm = user_id u) (memberships d))) \<longleftrightarrow> is_member d u p"
  by (auto simp: is_member_def list_ex_iff)

text \<open>
  Claim C7. Without a project id, and when neither \<open>sort=recent\<close> nor a search is
  asked for, \<open>BoardList.get_queryset\<close> returns the boards of the database that are owned
  by the requester or by a project the requester is a member of, each as often as the
  table holds it, ordered by title: no other board, and none of these missing.
\<close>

theorem board_list_scope_exact:
  assumes "sort_param \<noteq> Some ''recent''"
  shows "BoardList_get_queryset r srv d u None sort_param None
           = Inr (sort_key board_title (filter (in_user_scope d u) (boards d)))
         \<and> (\<exists>bs. BoardList_get_queryset r srv d u None sort_param None = Inr bs
              \<and> set bs = {b \<in> set (boards d). in_user_scope d u b}
              \<and> length bs = length (filter (in_user_scope d u) (boards d)))"
proof -
  have eq: "((owner_id b = user_id u \<and> owner_model b = ''customuser'')
        \<or> (owner_id b \<in> set (map project (filter (\<lambda>pm. member pm = user_id u) (memberships d)))
           \<and> owner_model b = ''project'')) = in_user_scope d u b" for b
    unfolding project_ids_is_member in_user_scope_def by auto
  have scope: "board_scope d u None = Inr (filter (in_user_scope d u) (boards d))"
    by (simp only: board_scope_def Let_def ContentType_objects_get_def eq option.case)
  have res: "BoardList_get_queryset r srv d u None sort_param None
           = Inr (sort_key board_title (filter (in_user_scope d u) (boards d)))"
    using assms by (simp add: BoardList_get_queryset_def scope)
  show ?thesis
    by (simp add: res)
qed

theorem board_list_scope_exact_witness:
  "(None :: string option) \<noteq> Some ''recent''
   \<and> BoardList_get_queryset None Unreachable example_db bob None None None = Inr [roadmap]
   \<and> BoardList_get_queryset None Unreachable example_db alice None None None
       = Inr [private_board, roadmap]"
  using board_list_scope_exact [of None None Unreachable example_db bob]
    board_list_scope_exact [of None None Unreachable example_db alice]
  by (simp add: in_user_scope_def is_member_def example_defs)

lemma stored_board_save:
  assumes "stored_board d (board_id b) = Inr b0"
  shows "stored_board (board_save d b) (board_id b) = Inr b"
proof -
  let ?p = "\<lambda>x. board_id x = board_id b"
  from assms have one: "filter ?p (boards d) = [b0]"
    by (auto simp: stored_board_def objects_get_def split: list.splits)
  then have ex: "list_ex ?p (boards d)"
    by (metis filter_empty_conv list_ex_iff not_Cons_self2)
  have "filter ?p (map (\<lambda>x. if ?p x then b else x) xs) = map (\<lambda>x. b) (filter ?p xs)" for xs
    by (induction xs) simp_all
  with one have "filter ?p (map (\<lambda>x. if ?p x then b else x) (boards d)) = [b]"
    by simp
  with ex show ?thesis
    by (simp add: stored_board_def objects_get_def board_save_def)
qed

lemma board_id_set_board_fields [simp]: "board_id (set_board_fields f b) = board_id b"
  by (simp add: set_board_fields_def)

lemma stored_after_serializer_save:
  assumes "stored_board d (board_id inst) = Inr inst"
  shows "stored_board (BoardSerializer_save d inst v kw) (board_id inst)
           = Inr (set_board_fields (merge_fields v kw) inst)"
  using stored_board_save [of d "set_board_fields (merge_fields v kw) inst" inst] assms
  by (simp add: BoardSerializer_save_def)

text \<open>
  Claim C8, as the claim states it. An update whose request data contains \<open>color\<close>
  should leave \<open>image\<close> and \<open>image_url\<close> cleared. When the data contains
  \<open>image_url\<close> as well, the \<open>image_url\<close> branch is taken: the new url is stored and
  the color is cleared.
\<close>

theorem board_update_color_with_image_url:
  "''color'' \<in> {''image_url'', ''color''}
   \<and> map_sum id appearance
       (stored_board (BoardDetail_perform_update example_db private_board {''image_url'', ''color''}
          \<lparr>f_title = None, f_image = None, f_image_url = Some ''https://example.com/bg.png'',
           f_color = Some ''red''\<rparr>)
          (board_id private_board))
     = Inr (None, ''https://example.com/bg.png'', '''')"
  by (simp add: stored_board_def objects_get_def BoardDetail_perform_update_def
      BoardSerializer_save_def board_save_def set_board_fields_def merge_fields_def
      override_def no_fields_def appearance_def example_defs)

text \<open>
  Claim C8, amended. The three keys are tested in the order \<open>image\<close>,
  \<open>image_url\<close>, \<open>color\<close> and the first one present decides: with \<open>image\<close>
  the stored board has an empty \<open>image_url\<close> and \<open>color\<close>; with \<open>image_url\<close>
  and no \<open>image\<close> it has no \<open>image\<close> and an empty \<open>color\<close>; with
  \<open>color\<close> and neither of the others it has no \<open>image\<close> and an empty
  \<open>image_url\<close>. Whenever one of the keys is present, at most one of the three fields
  holds a value afterwards.
\<close>

theorem board_update_appearance_priority:
  assumes "stored_board d (board_id inst) = Inr inst"
  shows "\<exists>b. stored_board (BoardDetail_perform_update d inst req_data validated_data)
                (board_id inst) = Inr b
           \<and> (''image'' \<in> req_data \<longrightarrow> image_url b = '''' \<and> color b = '''')
           \<and> (''image'' \<notin> req_data \<and> ''image_url'' \<in> req_data \<longrightarrow> image b = None \<and> color b = '''')
           \<and> (''image'' \<notin> req_data \<and> ''image_url'' \<notin> req_data \<and> ''color'' \<in> req_data
                \<longrightarrow> image b = None \<and> image_url b = '''')
           \<and> (''image'' \<in> req_data \<or> ''image_url'' \<in> req_data \<or> ''color'' \<in> req_data
                \<longrightarrow> active_backgrounds b \<le> 1)"
proof -
  consider (img) "''image'' \<in> req_data"
    | (url) "''image'' \<notin> req_data" "''image_url'' \<in> req_data"
    | (col) "''image'' \<notin> req_data" "''image_url'' \<notin> req_data" "''color'' \<in> req_data"
    | (none) "''image'' \<notin> req_data" "''image_url'' \<notin> req_data" "''color'' \<notin> req_data"
    by blast
  then show ?thesis
  proof cases
    case img
    then show ?thesis
      by (simp add: BoardDetail_perform_update_def stored_after_serializer_save [OF assms]
          set_board_fields_def merge_fields_def override_def no_fields_def active_backgrounds_def)
  next
    case url
    then show ?thesis
      by (simp add: BoardDetail_perform_update_def stored_after_serializer_save [OF assms]
          set_board_fields_def merge_fields_def override_def no_fields_def active_backgrounds_def)
  next
    case col
    then show ?thesis
      by (simp add: BoardDetail_perform_update_def stored_after_serializer_save [OF assms]
          set_board_fields_def merge_fields_def override_def no_fields_def active_backgrounds_def)
  next
    case none
    then show ?thesis
      by (simp add: BoardDetail_perform_update_def assms)
  qed
qed

theorem board_update_appearance_priority_witness:
  "stored_board example_db (board_id private_board) = Inr private_board
   \<and> map_sum id appearance
       (stored_board (BoardDetail_perform_update example_db private_board {''title'', ''color''}
          \<lparr>f_title = Some ''Renamed'', f_image = None, f_image_url = None, f_color = Some ''red''\<rparr>)
          (board_id private_board))
     = Inr (None, '''', ''red'')"
proof -
  have h: "stored_board example_db (board_id private_board) = Inr private_board"
    by (simp add: stored_board_def objects_get_def example_defs)
  have e: "map_sum id appearance
       (stored_board (BoardDetail_perform_update example_db private_board {''title'', ''color''}
          \<lparr>f_title = Some ''Renamed'', f_image = None, f_image_url = None, f_color = Some ''red''\<rparr>)
          (board_id private_board))
     = Inr (None, '''', ''red'')"
    by (simp add: stored_board_def objects_get_def BoardDetail_perform_update_def
        BoardSerializer_save_def board_save_def set_board_fields_def merge_fields_def
        override_def no_fields_def appearance_def example_defs)
  from board_update_appearance_priority [OF h, of "{''title'', ''color''}"
      "\<lparr>f_title = Some ''Renamed'', f_image = None, f_image_url = None, f_color = Some ''red''\<rparr>"]
  show ?thesis using h e by simp
qed

text \<open>
  Claim C9. An item update with \<open>assigned_to\<close> should toggle the user in the item's
  assignment set. \<open>get_user\<close> looks the user up by \<open>username\<close>, a column that
  \<open>CustomUser\<close> does not have, so the update raises \<open>FieldError\<close> in
  \<open>ItemDetail.put\<close> before anything is saved: Alice, who may view the item, cannot assign
  herself, and the database is unchanged.
\<close>

theorem item_put_assigned_to_field_error:
  "ItemDetail_get_object example_db alice 300 = Inr task
   \<and> ItemDetail_put example_db alice 300
       \<lparr>data_assigned_to = Some ''alice@example.com'', data_labels = None, data_list = None,
        data_keys = {}\<rparr> no_item_fields
     = (Inl FieldError, example_db)"
  by (simp add: ItemDetail_put_def ItemDetail_get_object_def get_object_or_404_def objects_get_def
      item_board_def list_board_obj_def check_object_permissions_def CanViewBoard_def
      can_view_board_def ContentType_objects_get_def put_checks_def ItemDetail_get_user_def
      User_get_object_or_404_def CustomUser_text_column_def example_defs)

text \<open>The toggle of lines 450-453 by itself changes the set, and undoes itself.\<close>

lemma toggle_twice: "toggle k (toggle k s) = s"
  by (auto simp: toggle_def)

lemma toggle_once: "toggle k s \<noteq> s"
  by (auto simp: toggle_def)

text \<open>
  Claim C10. A board update whose request data has none of the keys \<open>image\<close>,
  \<open>image_url\<close> and \<open>color\<close> saves nothing: \<open>perform_update\<close> returns the
  database as it was, whatever data the serializer validated.
\<close>

theorem board_update_without_appearance_keys:
  assumes "''image'' \<notin> req_data" and "''image_url'' \<notin> req_data" and "''color'' \<notin> req_data"
  shows "BoardDetail_perform_update d instance req_data validated_data = d"
  using assms by (simp add: BoardDetail_perform_update_def)

theorem board_update_without_appearance_keys_witness:
  "''image'' \<notin> {''title''} \<and> ''image_url'' \<notin> {''title''} \<and> ''color'' \<notin> {''title''}
   \<and> BoardDetail_perform_update example_db private_board {''title''}
         (no_fields\<lparr>f_title := Some ''Renamed''\<rparr>) = example_db"
  using board_update_without_appearance_keys
    [of "{''title''}" example_db private_board "no_fields\<lparr>f_title := Some ''Renamed''\<rparr>"]
  by simp

section \<open>Properties of the Recency Tracker\<close>

lemma double_of_int_exact:
  assumes "0 \<le> x" and "x < 9007199254740992"
  shows "double_of_int x = x"
proof -
  from assms have "nat x < 9007199254740992" by linarith
  with assms(1) show ?thesis
    by (simp add: double_of_int_def round_to_double_def)
qed

lemma cur_time_int_bounds:
  assumes "valid_datetime now"
  shows "0 \<le> cur_time_int now \<and> cur_time_int now < 9007199254740992"
  using assms by (simp add: valid_datetime_def cur_time_int_def)

lemma map_of_zset_add: "map_of (zset_add z m s) = (map_of z)(m \<mapsto> double_of_int s)"
  by (induction z m s rule: zset_add.induct) (auto simp: fun_eq_iff)

lemma fst_set_zset_add: "fst ` set (zset_add z m s) = insert m (fst ` set z)"
  by (induction z m s rule: zset_add.induct) auto

lemma distinct_zset_add:
  "distinct (map fst z) \<Longrightarrow> distinct (map fst (zset_add z m s))"
proof (induction z m s rule: zset_add.induct)
  case (1 m s)
  then show ?case by simp
next
  case (2 m' s' z m s)
  then show ?case
    using fst_set_zset_add [of z m s] by (auto simp: image_iff)
qed

lemma zset_add_nonempty: "zset_add z m s \<noteq> []"
  by (induction z m s rule: zset_add.induct) (simp_all split: if_splits)

lemma views_zset_Cons: "views_zset z (c # cs) = views_zset (zset_add z (fst c) (snd c)) cs"
  by (simp add: views_zset_def)

lemma views_zset_Nil: "views_zset z [] = z"
  by (simp add: views_zset_def)

lemma map_of_views_zset:
  assumes "list_all (\<lambda>c. double_of_int (snd c) = snd c) cs"
  shows "map_of (views_zset z cs) b
     = (case last_recorded cs b of Some t \<Rightarrow> Some t | None \<Rightarrow> map_of z b)"
  using assms
proof (induction cs arbitrary: z)
  case Nil
  then show ?case by (simp add: views_zset_Nil)
next
  case (Cons c cs)
  obtain b' t where c: "c = (b', t)" by (cases c)
  from Cons.prems c have t: "double_of_int t = t" and rest: "list_all (\<lambda>c. double_of_int (snd c) = snd c) cs"
    by simp_all
  show ?case
    by (simp add: views_zset_Cons Cons.IH [OF rest] c map_of_zset_add t split: option.splits)
qed

lemma distinct_views_zset:
  "distinct (map fst z) \<Longrightarrow> distinct (map fst (views_zset z cs))"
proof (induction cs arbitrary: z)
  case Nil
  then show ?case by (simp add: views_zset_Nil)
next
  case (Cons c cs)
  then show ?case by (simp add: views_zset_Cons distinct_zset_add)
qed

lemma views_zset_nonempty: "cs \<noteq> [] \<Longrightarrow> views_zset z cs \<noteq> []"
proof (induction cs arbitrary: z)
  case Nil
  then show ?case by simp
next
  case (Cons c cs)
  show ?case
  proof (cases cs)
    case Nil
    then show ?thesis by (simp add: views_zset_Cons views_zset_Nil zset_add_nonempty)
  next
    case (Cons c' cs')
    with Cons.IH show ?thesis unfolding views_zset_Cons [of z c cs] by simp
  qed
qed

lemma zset_key_mono: "zset_key a \<le> zset_key b \<Longrightarrow> snd a \<le> snd b"
  by (auto simp: zset_key_def less_eq_prod_def)

lemma scores_sorted: "sorted (map snd (sort_key zset_key z))"
proof -
  have "sorted (map zset_key (sort_key zset_key z))" by simp
  then have "sorted_wrt (\<lambda>a b. zset_key a \<le> zset_key b) (sort_key zset_key z)"
    by (simp add: sorted_wrt_map)
  then have "sorted_wrt (\<lambda>a b. snd a \<le> snd b) (sort_key zset_key z)"
    by (rule sorted_wrt_mono_rel [rotated]) (simp add: zset_key_mono)
  then show ?thesis by (simp add: sorted_wrt_map)
qed

lemma rev_sorted_scores:
  assumes "i \<le> j" and "j < length z"
  shows "snd (rev (sort_key zset_key z) ! j) \<le> snd (rev (sort_key zset_key z) ! i)"
proof -
  let ?xs = "map snd (rev (sort_key zset_key z))"
  have "sorted (rev ?xs)" using scores_sorted [of z] by (simp add: rev_map)
  then have "?xs ! j \<le> ?xs ! i"
    using assms by (simp add: sorted_rev_iff_nth_mono)
  with assms show ?thesis by simp
qed

lemma recent_of_zset:
  "recent_board_ids (Some Redis) (Reachable s) u
     = Inr (map fst (take 4 (rev (sort_key zset_key (s (redis_key u))))))"
  by (simp add: recent_board_ids_def zrange_def zset_revrange_def)

lemma distinct_recent_ids:
  assumes "distinct (map fst z)"
  shows "distinct (map fst (take 4 (rev (sort_key zset_key z))))"
proof -
  from assms have "distinct z" and "inj_on fst (set z)"
    by (simp_all add: distinct_map)
  then have "distinct (map fst (rev (sort_key zset_key z)))"
    by (simp add: distinct_map)
  then have "distinct (take 4 (map fst (rev (sort_key zset_key z))))"
    by (rule distinct_take)
  then show ?thesis by (simp add: take_map)
qed

text \<open>The store after one retrieval, whatever the lookup answers.\<close>

lemma get_object_store:
  "snd (BoardDetail_get_object (Some Redis) (Reachable s) d v now pk)
     = Reachable (s(redis_key v := zset_add (s (redis_key v)) pk (cur_time_int now)))"
  by (simp add: BoardDetail_get_object_def record_view_def zadd_def split: sum.splits)

lemma redis_key_eq: "redis_key v = redis_key u \<longleftrightarrow> email v = email u"
  by (simp add: redis_key_def)

lemma views_by_Cons:
  "views_by u ((v, now, pk) # reqs)
     = (if email v = email u then (pk, cur_time_int now) # views_by u reqs else views_by u reqs)"
  by (simp add: views_by_def)

lemma requests_store:
  "\<exists>s'. board_detail_requests (Some Redis) (Reachable s) d reqs = Reachable s'
        \<and> (\<forall>u. s' (redis_key u) = views_zset (s (redis_key u)) (views_by u reqs))"
proof (induction reqs arbitrary: s)
  case Nil
  then show ?case by (simp add: views_by_def views_zset_Nil)
next
  case (Cons q reqs)
  obtain v now pk where q: "q = (v, now, pk)" by (cases q)
  let ?s1 = "s(redis_key v := zset_add (s (redis_key v)) pk (cur_time_int now))"
  from Cons.IH [of ?s1] obtain s' where
    run: "board_detail_requests (Some Redis) (Reachable ?s1) d reqs = Reachable s'"
    and keys: "\<forall>u. s' (redis_key u) = views_zset (?s1 (redis_key u)) (views_by u reqs)"
    by blast
  have "board_detail_requests (Some Redis) (Reachable s) d (q # reqs) = Reachable s'"
    by (simp add: q get_object_store run)
  moreover have "s' (redis_key u) = views_zset (s (redis_key u)) (views_by u (q # reqs))" for u
  proof (cases "email v = email u")
    case True
    then have "redis_key v = redis_key u" by (simp add: redis_key_def)
    with keys True show ?thesis
      by (simp add: q views_by_Cons views_zset_Cons)
  next
    case False
    with keys show ?thesis
      by (simp add: q views_by_Cons redis_key_eq)
  qed
  ultimately show ?case by blast
qed


lemma position_nth:
  "distinct xs \<Longrightarrow> i < length xs \<Longrightarrow> length (takeWhile (\<lambda>y. y \<noteq> xs ! i) xs) = i"
proof (induction xs arbitrary: i)
  case Nil
  then show ?case by simp
next
  case (Cons x xs)
  show ?case
  proof (cases i)
    case 0
    then show ?thesis by simp
  next
    case (Suc j)
    with Cons.prems have j: "j < length xs" and "xs ! j \<in> set xs" and "x \<notin> set xs"
      by simp_all
    then have "x \<noteq> xs ! j" by auto
    with Cons.IH [of j] Cons.prems j Suc show ?thesis by simp
  qed
qed

lemma position_inj:
  assumes "distinct xs"
  shows "inj_on (\<lambda>a. length (takeWhile (\<lambda>y. y \<noteq> a) xs)) (set xs)"
proof (rule inj_onI)
  fix a b
  assume a: "a \<in> set xs" and b: "b \<in> set xs"
    and eq: "length (takeWhile (\<lambda>y. y \<noteq> a) xs) = length (takeWhile (\<lambda>y. y \<noteq> b) xs)"
  from a obtain i where i: "i < length xs" "xs ! i = a" by (auto simp: in_set_conv_nth)
  from b obtain j where j: "j < length xs" "xs ! j = b" by (auto simp: in_set_conv_nth)
  from position_nth [OF assms i(1)] position_nth [OF assms j(1)] eq i(2) j(2)
  have "i = j" by simp
  with i j show "a = b" by simp
qed

lemma position_sorted:
  assumes "distinct xs"
  shows "sorted (map (\<lambda>a. length (takeWhile (\<lambda>y. y \<noteq> a) xs)) xs)"
  unfolding sorted_iff_nth_mono
  using position_nth [OF assms] by simp

text \<open>
  The boards selected by a list of distinct ids, ordered by the position of their id in
  the list, are the ids of the list that name a board, in the order of the list.
\<close>

lemma ordered_by_position:
  assumes ids: "distinct ids" and pks: "distinct (map board_id bs)"
  shows "map board_id
           (sort_key (\<lambda>b. length (takeWhile (\<lambda>pk. pk \<noteq> board_id b) ids))
              (filter (\<lambda>b. board_id b \<in> set ids) bs))
         = filter (\<lambda>pk. pk \<in> board_id ` set bs) ids"
proof -
  let ?idx = "\<lambda>a. length (takeWhile (\<lambda>y. y \<noteq> a) ids)"
  let ?sel = "filter (\<lambda>b. board_id b \<in> set ids) bs"
  let ?L = "map board_id (sort_key (\<lambda>b. ?idx (board_id b)) ?sel)"
  let ?R = "filter (\<lambda>pk. pk \<in> board_id ` set bs) ids"
  from pks have dbs: "distinct bs" and inj: "inj_on board_id (set bs)"
    by (simp_all add: distinct_map)
  have setL: "set ?L \<subseteq> set ids" by auto
  have setR: "set ?R \<subseteq> set ids" by auto
  have injL: "inj_on ?idx (set ?L)" by (rule inj_on_subset [OF position_inj [OF ids] setL])
  have injR: "inj_on ?idx (set ?R)" by (rule inj_on_subset [OF position_inj [OF ids] setR])
  have "inj_on board_id (set ?sel)" by (rule inj_on_subset [OF inj]) auto
  with dbs have dL: "distinct ?L" by (simp add: distinct_map)
  have dR: "distinct ?R" using ids by simp
  have sL: "sorted (map ?idx ?L)"
    using sorted_sort_key [of "\<lambda>b. ?idx (board_id b)" ?sel] by (simp add: comp_def)
  have sR: "sorted (map ?idx ?R)"
    by (rule sorted_filter [OF position_sorted [OF ids]])
  have sets: "set ?L = set ?R" by auto
  have eq: "map ?idx ?L = map ?idx ?R"
  proof (rule sorted_distinct_set_unique)
    show "sorted (map ?idx ?L)" by (rule sL)
    show "distinct (map ?idx ?L)" by (rule iffD2 [OF distinct_map]) (rule conjI [OF dL injL])
    show "sorted (map ?idx ?R)" by (rule sR)
    show "distinct (map ?idx ?R)" by (rule iffD2 [OF distinct_map]) (rule conjI [OF dR injR])
    have "set (map ?idx ?L) = ?idx ` set ?L" by (rule set_map)
    also have "\<dots> = ?idx ` set ?R" by (simp only: sets)
    also have "\<dots> = set (map ?idx ?R)" by (rule set_map [symmetric])
    finally show "set (map ?idx ?L) = set (map ?idx ?R)" .
  qed
  have injU: "inj_on ?idx (set ?L \<union> set ?R)"
    by (rule inj_on_subset [OF position_inj [OF ids]]) auto
  from iffD1 [OF inj_on_map_eq_map [OF injU] eq] show ?thesis .
qed


lemma views_by_exact:
  assumes "list_all (\<lambda>q. valid_datetime (fst (snd q))) reqs"
  shows "list_all (\<lambda>c. double_of_int (snd c) = snd c) (views_by u reqs)"
proof -
  have "double_of_int (cur_time_int now) = cur_time_int now" if "valid_datetime now" for now
    using cur_time_int_bounds [OF that] by (simp add: double_of_int_exact)
  with assms show ?thesis
    by (auto simp: views_by_def list_all_iff)
qed

lemma tracked_entry:
  assumes "list_all (\<lambda>c. double_of_int (snd c) = snd c) cs"
    and "e \<in> set (views_zset [] cs)"
  shows "last_recorded cs (fst e) = Some (snd e)"
proof -
  have "distinct (map fst (views_zset [] cs))"
    by (rule distinct_views_zset) simp
  moreover from assms(2) have "(fst e, snd e) \<in> set (views_zset [] cs)"
    by simp
  ultimately have "map_of (views_zset [] cs) (fst e) = Some (snd e)"
    by simp
  then show ?thesis
    by (simp add: map_of_views_zset [OF assms(1)] split: option.splits)
qed

lemma recorded_is_tracked:
  assumes "list_all (\<lambda>c. double_of_int (snd c) = snd c) cs"
    and "last_recorded cs b = Some t"
  shows "(b, t) \<in> set (views_zset [] cs)"
proof -
  from assms(2) have "map_of (views_zset [] cs) b = Some t"
    by (simp add: map_of_views_zset [OF assms(1)])
  then show ?thesis by (rule map_of_SomeD)
qed

lemma recent_listing:
  "BoardList_get_queryset (Some Redis) (Reachable s) d u pid (Some ''recent'') q
     = Inr (sort_key
              (\<lambda>b. length (takeWhile (\<lambda>pk. pk \<noteq> board_id b)
                      (map fst (take 4 (rev (sort_key zset_key (s (redis_key u))))))))
              (filter (\<lambda>b. board_id b
                        \<in> set (map fst (take 4 (rev (sort_key zset_key (s (redis_key u)))))))
                 (boards d)))"
  by (simp add: BoardList_get_queryset_def recent_of_zset)

text \<open>
  Claim C4. The client is connected and the store reachable, nothing is tracked for the
  user at the start, the requests carry valid datetimes and the primary keys of the boards
  are unique. Then the recent ids and the \<open>sort=recent\<close> listing are empty, without an
  exception. After any sequence of board retrievals, by this user and by others, in which
  the user has a view, the first of the user's recent ids is a board whose last recorded
  timestamp is the greatest of the user's last recorded timestamps; along the recent ids
  these timestamps never increase, so a board recorded again with an older timestamp
  stands behind every board whose last timestamp is newer; and the \<open>sort=recent\<close>
  listing shows the boards that exist for these ids, in the same order.
\<close>

theorem recent_listing_follows_last_views:
  assumes empty: "s (redis_key u) = []"
    and valid: "list_all (\<lambda>q. valid_datetime (fst (snd q))) reqs"
    and pks: "distinct (map board_id (boards d))"
  shows "recent_board_ids (Some Redis) (Reachable s) u = Inr []
    \<and> BoardList_get_queryset (Some Redis) (Reachable s) d u pid (Some ''recent'') q = Inr []
    \<and> (views_by u reqs \<noteq> [] \<longrightarrow>
         (\<exists>ids listing b t.
            recent_board_ids (Some Redis)
                (board_detail_requests (Some Redis) (Reachable s) d reqs) u = Inr ids
            \<and> BoardList_get_queryset (Some Redis)
                (board_detail_requests (Some Redis) (Reachable s) d reqs) d u pid
                (Some ''recent'') q = Inr listing
            \<and> map board_id listing = filter (\<lambda>pk. pk \<in> board_id ` set (boards d)) ids
            \<and> take 1 ids = [b]
            \<and> last_recorded (views_by u reqs) b = Some t
            \<and> (\<forall>b' t'. last_recorded (views_by u reqs) b' = Some t' \<longrightarrow> t' \<le> t)
            \<and> (\<forall>i j. i < j \<and> j < length ids \<longrightarrow>
                  (\<exists>ti tj. last_recorded (views_by u reqs) (ids ! i) = Some ti
                     \<and> last_recorded (views_by u reqs) (ids ! j) = Some tj \<and> tj \<le> ti))))"
proof (intro conjI impI)
  show "recent_board_ids (Some Redis) (Reachable s) u = Inr []"
    by (simp add: recent_of_zset empty)
next
  show "BoardList_get_queryset (Some Redis) (Reachable s) d u pid (Some ''recent'') q = Inr []"
    by (simp add: recent_listing empty)
next
  assume ne: "views_by u reqs \<noteq> []"
  define cs where "cs = views_by u reqs"
  define z where "z = views_zset [] cs"
  define xs where "xs = rev (sort_key zset_key z)"
  define ids where "ids = map fst (take 4 xs)"
  define listing where "listing =
    sort_key (\<lambda>b. length (takeWhile (\<lambda>pk. pk \<noteq> board_id b) ids))
      (filter (\<lambda>b. board_id b \<in> set ids) (boards d))"
  have exact: "list_all (\<lambda>c. double_of_int (snd c) = snd c) cs"
    unfolding cs_def by (rule views_by_exact [OF valid])
  from requests_store [of s d reqs] obtain s' where
    run: "board_detail_requests (Some Redis) (Reachable s) d reqs = Reachable s'"
    and keys: "\<forall>v. s' (redis_key v) = views_zset (s (redis_key v)) (views_by v reqs)"
    by blast
  from keys empty have key: "s' (redis_key u) = z"
    by (simp add: z_def cs_def)
  have rec: "recent_board_ids (Some Redis)
               (board_detail_requests (Some Redis) (Reachable s) d reqs) u = Inr ids"
    by (simp add: run recent_of_zset key ids_def xs_def)
  have lst: "BoardList_get_queryset (Some Redis)
               (board_detail_requests (Some Redis) (Reachable s) d reqs) d u pid
               (Some ''recent'') q = Inr listing"
    by (simp only: run recent_listing key listing_def ids_def xs_def)
  have dz: "distinct (map fst z)"
    unfolding z_def by (rule distinct_views_zset) simp
  have dids: "distinct ids"
    unfolding ids_def xs_def by (rule distinct_recent_ids [OF dz])
  have order_ids: "map board_id listing = filter (\<lambda>pk. pk \<in> board_id ` set (boards d)) ids"
    unfolding listing_def by (rule ordered_by_position [OF dids pks])
  have len: "length xs = length z" by (simp add: xs_def)
  have setxs: "set xs = set z" by (simp add: xs_def)
  from ne have "z \<noteq> []" unfolding z_def cs_def by (rule views_zset_nonempty)
  with len have pos: "0 < length xs" by simp
  have entry: "last_recorded cs (fst (xs ! k)) = Some (snd (xs ! k))" if "k < length xs" for k
  proof -
    from that have "xs ! k \<in> set z" using setxs nth_mem by blast
    then show ?thesis unfolding z_def by (rule tracked_entry [OF exact])
  qed
  have order: "snd (xs ! j) \<le> snd (xs ! i)" if "i \<le> j" "j < length xs" for i j
  proof -
    from that(2) len have "j < length z" by simp
    from rev_sorted_scores [OF that(1) this] show ?thesis by (simp add: xs_def)
  qed
  have idn: "ids ! k = fst (xs ! k)" if "k < length ids" for k
    using that by (simp add: ids_def)
  have idlen: "length ids \<le> length xs" by (simp add: ids_def)
  have top: "take 1 ids = [fst (xs ! 0)]"
    using pos by (cases xs) (simp_all add: ids_def)
  have best: "t' \<le> snd (xs ! 0)" if "last_recorded cs b' = Some t'" for b' t'
  proof -
    from that have "(b', t') \<in> set xs"
      unfolding setxs z_def by (rule recorded_is_tracked [OF exact])
    then obtain k where k: "k < length xs" "xs ! k = (b', t')"
      by (auto simp: in_set_conv_nth)
    from order [of 0 k] k show ?thesis by simp
  qed
  have pairs: "\<exists>ti tj. last_recorded cs (ids ! i) = Some ti
                 \<and> last_recorded cs (ids ! j) = Some tj \<and> tj \<le> ti"
    if "i < j \<and> j < length ids" for i j
  proof -
    from that idlen have ij: "i < length xs" "j < length xs" "i \<le> j" "i < length ids" "j < length ids"
      by simp_all
    show ?thesis
      using entry [OF ij(1)] entry [OF ij(2)] order [OF ij(3) ij(2)] idn [OF ij(4)] idn [OF ij(5)]
      by simp
  qed
  show "\<exists>ids listing b t.
            recent_board_ids (Some Redis)
                (board_detail_requests (Some Redis) (Reachable s) d reqs) u = Inr ids
            \<and> BoardList_get_queryset (Some Redis)
                (board_detail_requests (Some Redis) (Reachable s) d reqs) d u pid
                (Some ''recent'') q = Inr listing
            \<and> map board_id listing = filter (\<lambda>pk. pk \<in> board_id ` set (boards d)) ids
            \<and> take 1 ids = [b]
            \<and> last_recorded (views_by u reqs) b = Some t
            \<and> (\<forall>b' t'. last_recorded (views_by u reqs) b' = Some t' \<longrightarrow> t' \<le> t)
            \<and> (\<forall>i j. i < j \<and> j < length ids \<longrightarrow>
                  (\<exists>ti tj. last_recorded (views_by u reqs) (ids ! i) = Some ti
                     \<and> last_recorded (views_by u reqs) (ids ! j) = Some tj \<and> tj \<le> ti))"
    using rec lst order_ids top entry [OF pos] best pairs unfolding cs_def by blast
qed


theorem recent_listing_follows_last_views_witness:
  "empty_store (redis_key alice) = []
   \<and> list_all (\<lambda>q. valid_datetime (fst (snd q))) example_requests
   \<and> distinct (map board_id (boards example_db))
   \<and> views_by alice example_requests
       = [(100, 20250314120000), (101, 20250314120500), (101, 20250314110000)]
   \<and> recent_board_ids (Some Redis)
        (board_detail_requests (Some Redis) (Reachable empty_store) example_db example_requests)
        alice = Inr [100, 101]
   \<and> BoardList_get_queryset (Some Redis)
        (board_detail_requests (Some Redis) (Reachable empty_store) example_db example_requests)
        example_db alice None (Some ''recent'') None = Inr [roadmap, private_board]
   \<and> recent_board_ids (Some Redis)
        (board_detail_requests (Some Redis) (Reachable empty_store) example_db example_requests)
        bob = Inr [101]"
proof -
  have h1: "empty_store (redis_key alice) = []" by (simp add: empty_store_def)
  have h2: "list_all (\<lambda>q. valid_datetime (fst (snd q))) example_requests"
    by (simp add: valid_datetime_def example_defs)
  have h3: "distinct (map board_id (boards example_db))"
    by (simp add: example_defs)
  have v: "views_by alice example_requests
       = [(100, 20250314120000), (101, 20250314120500), (101, 20250314110000)]"
    by (simp add: views_by_def cur_time_int_def example_defs)
  have run: "board_detail_requests (Some Redis) (Reachable empty_store) example_db example_requests
      = Reachable (empty_store
          (redis_key alice := [(100, 20250314120000), (101, 20250314110000)],
           redis_key bob := [(101, 20250314120500)]))"
    by (simp add: example_requests_def get_object_store redis_key_def alice_def bob_def
        noon_def five_past_def eleven_def empty_store_def cur_time_int_def double_of_int_def
        round_to_double_def fun_eq_iff)
  have ra: "recent_board_ids (Some Redis)
        (board_detail_requests (Some Redis) (Reachable empty_store) example_db example_requests)
        alice = Inr [100, 101]"
    by (simp add: run recent_of_zset redis_key_def alice_def bob_def zset_key_def
        less_eq_prod_def)
  have rb: "recent_board_ids (Some Redis)
        (board_detail_requests (Some Redis) (Reachable empty_store) example_db example_requests)
        bob = Inr [101]"
    by (simp add: run recent_of_zset redis_key_def alice_def bob_def)
  have la: "BoardList_get_queryset (Some Redis)
        (board_detail_requests (Some Redis) (Reachable empty_store) example_db example_requests)
        example_db alice None (Some ''recent'') None = Inr [roadmap, private_board]"
    using ra by (simp add: BoardList_get_queryset_def example_db_def roadmap_def
        private_board_def stray_board_def)
  from recent_listing_follows_last_views
    [where s = empty_store and u = alice and reqs = example_requests and d = example_db]
  show ?thesis using h1 h2 h3 v ra rb la by simp
qed

end
